theory Spec2Isabelle
  imports Main "HOL-Library.Stream"
begin

section \<open>Synthetic e-commerce pipeline: generator and loader\<close>

text \<open>
  A shallow embedding of \<^verbatim>\<open>generate_datasets.py\<close> (the dataset generator) and
  \<^verbatim>\<open>load_to_database.py\<close> (the loader and its referential-integrity verification).

  Dates are proleptic Gregorian ordinals (what \<^verbatim>\<open>date.toordinal()\<close> returns), so that
  \<^verbatim>\<open>d + timedelta(days=k)\<close> is \<open>d + k\<close> and date comparison is integer comparison.
  The \<^verbatim>\<open>strftime("%Y-%m-%d")\<close> / \<^verbatim>\<open>pd.to_datetime\<close> round trip of a date column is the
  identity on dates and is not modelled; the empty string that stands for an absent
  \<^verbatim>\<open>ship_date\<close> is \<open>None\<close>.

  The columns kept are the keys, the foreign keys, the dates, and the columns drawn from
  the module \<^verbatim>\<open>random\<close> out of a constant list or an integer range (country, category,
  status, quantity, carrier). The columns built from Faker's text providers (first and
  last name, e-mail, product name), the tracking number and the floating-point columns
  (price, item price, shipment cost) are left out: no later step of the generator reads
  them except the item price's read of the product price.
\<close>

subsection \<open>Errors and the two seeded random sources\<close>

datatype error = IndexError | ValueError | AssertionError string | FileNotFoundError string
  | IntegrityError string | OverflowError | OperationalError string

type_synonym date = int

text \<open>
  The script draws from two seeded generators: the module \<^verbatim>\<open>random\<close>
  (\<^verbatim>\<open>random.seed(42)\<close>) and Faker's own (\<^verbatim>\<open>Faker.seed(42)\<close>). Each is a stream of raw
  draws; a call consumes the head. Every outcome a call can have in its range is the image
  of some raw draw, so a statement for all streams covers every run.
\<close>

record rng =
  random_src :: "nat stream"
  faker_src :: "nat stream"

definition next_random :: "rng \<Rightarrow> nat \<times> rng" where
  "next_random g = (shd (random_src g), g\<lparr>random_src := stl (random_src g)\<rparr>)"

definition next_faker :: "rng \<Rightarrow> nat \<times> rng" where
  "next_faker g = (shd (faker_src g), g\<lparr>faker_src := stl (faker_src g)\<rparr>)"

text \<open>\<^verbatim>\<open>random.randint(a, b)\<close>: an integer of \<open>[a, b]\<close>; \<^verbatim>\<open>ValueError\<close> on an empty range.\<close>

definition randint :: "int \<Rightarrow> int \<Rightarrow> rng \<Rightarrow> error + (int \<times> rng)" where
  "randint a b g =
     (if b < a then Inl ValueError
      else (case next_random g of (r, g') \<Rightarrow> Inr (a + int r mod (b - a + 1), g')))"

text \<open>\<^verbatim>\<open>random.choice(seq)\<close>: an element of \<open>seq\<close>; \<^verbatim>\<open>IndexError\<close> on an empty sequence.\<close>

definition choice :: "'a list \<Rightarrow> rng \<Rightarrow> error + ('a \<times> rng)" where
  "choice seq g =
     (if seq = [] then Inl IndexError
      else (case next_random g of (r, g') \<Rightarrow> Inr (seq ! (r mod length seq), g')))"

text \<open>
  \<^verbatim>\<open>fake.date_between(start_date, end_date)\<close>: a date of \<open>[start_date, end_date]\<close>, drawn
  from Faker's generator; Faker raises \<^verbatim>\<open>ValueError\<close> when the start is after the end.
\<close>

definition date_between :: "date \<Rightarrow> date \<Rightarrow> rng \<Rightarrow> error + (date \<times> rng)" where
  "date_between start_date end_date g =
     (if end_date < start_date then Inl ValueError
      else (case next_faker g of
              (r, g') \<Rightarrow> Inr (start_date + int r mod (end_date - start_date + 1), g')))"

text \<open>
  \<^verbatim>\<open>df[df[col] == v][c].iloc[0]\<close>: the first row of the frame that matches;
  \<^verbatim>\<open>IndexError\<close> when none does.
\<close>

definition iloc0 :: "'a list \<Rightarrow> error + 'a" where
  "iloc0 rows = (case rows of [] \<Rightarrow> Inl IndexError | row # _ \<Rightarrow> Inr row)"

subsection \<open>Constants\<close>

definition NUM_CUSTOMERS :: int where "NUM_CUSTOMERS = 1000"
definition NUM_PRODUCTS :: int where "NUM_PRODUCTS = 500"
definition NUM_ORDERS :: int where "NUM_ORDERS = 2000"
definition NUM_ORDER_ITEMS :: int where "NUM_ORDER_ITEMS = 4000"
definition NUM_SHIPMENTS :: int where "NUM_SHIPMENTS = 1500"

text \<open>2022-01-01, 2025-10-31, 2025-10-31 and (the launch cutoff) 2025-09-01.\<close>

definition START_DATE :: date where "START_DATE = 738156"
definition END_DATE :: date where "END_DATE = 739555"
definition SIGNUP_END :: date where "SIGNUP_END = 739555"
definition LAUNCH_END :: date where "LAUNCH_END = 739495"

definition CATEGORIES :: "string list" where
  "CATEGORIES = [''Electronics'', ''Apparel'', ''Home & Garden'', ''Sports & Outdoors'',
     ''Books'', ''Toys & Games'', ''Health & Beauty'', ''Automotive'', ''Food & Beverages'',
     ''Office Supplies'']"

definition COUNTRIES :: "string list" where
  "COUNTRIES = [''United States'', ''United Kingdom'', ''Canada'', ''Australia'',
     ''Germany'', ''France'', ''Italy'', ''Spain'', ''Netherlands'', ''Sweden'', ''Norway'',
     ''Japan'', ''South Korea'', ''Brazil'', ''Mexico'', ''India'', ''China'', ''Singapore'',
     ''United Arab Emirates'']"

datatype status = Pending | Processing | Shipped | Delivered | Cancelled

definition ORDER_STATUSES :: "status list" where
  "ORDER_STATUSES = [Pending, Processing, Shipped, Delivered, Cancelled]"

definition CARRIERS :: "string list" where
  "CARRIERS = [''UPS'', ''FedEx'', ''USPS'', ''DHL'', ''Amazon Logistics'', ''OnTrac'']"

subsection \<open>Rows\<close>

record customer =
  customer_id :: int
  signup_date :: date
  country :: string

record product =
  product_id :: int
  category :: string
  launch_date :: date

record order_row =
  order_id :: int
  o_customer_id :: int
  order_date :: date
  ship_date :: "date option"
  status :: status

record order_item =
  order_item_id :: int
  oi_order_id :: int
  oi_product_id :: int
  quantity :: int

record shipment =
  shipment_id :: int
  s_order_id :: int
  shipment_date :: date
  carrier :: string

subsection \<open>The five generation loops\<close>

text \<open>
  Each of the five loops has the same shape: a counter that starts at 1, runs while it is
  at most the row count, and appends one row per round
  (\<^verbatim>\<open>for i in range(1, N + 1)\<close> for customers, products and orders;
  \<^verbatim>\<open>while item_id <= N: ...; item_id += 1\<close> for order items and shipments). An exception
  in the body ends the run.
\<close>

function rows_loop ::
  "int \<Rightarrow> (int \<Rightarrow> rng \<Rightarrow> error + ('a \<times> rng)) \<Rightarrow> int \<Rightarrow> 'a list \<Rightarrow> rng \<Rightarrow> error + ('a list \<times> rng)"
where
  "rows_loop n body i rows g =
     (if i \<le> n then
        (case body i g of
           Inl e \<Rightarrow> Inl e
         | Inr (row, g') \<Rightarrow> rows_loop n body (i + 1) (rows @ [row]) g')
      else Inr (rows, g))"
  by pat_completeness auto
termination
  by (relation "measure (\<lambda>(n, body, i, rows, g). nat (n + 1 - i))") auto

declare rows_loop.simps [simp del]

text \<open>1. Customers.\<close>

definition customer_row :: "int \<Rightarrow> rng \<Rightarrow> error + (customer \<times> rng)" where
  "customer_row i g =
     (case date_between START_DATE SIGNUP_END g of
        Inl e \<Rightarrow> Inl e
      | Inr (signup, g1) \<Rightarrow>
          (case choice COUNTRIES g1 of
             Inl e \<Rightarrow> Inl e
           | Inr (c, g2) \<Rightarrow>
               Inr (\<lparr>customer_id = i, signup_date = signup, country = c\<rparr>, g2)))"

definition gen_customers :: "int \<Rightarrow> rng \<Rightarrow> error + (customer list \<times> rng)" where
  "gen_customers n g = rows_loop n customer_row 1 [] g"

text \<open>2. Products.\<close>

definition product_row :: "int \<Rightarrow> rng \<Rightarrow> error + (product \<times> rng)" where
  "product_row i g =
     (case choice CATEGORIES g of
        Inl e \<Rightarrow> Inl e
      | Inr (cat, g1) \<Rightarrow>
          (case date_between START_DATE LAUNCH_END g1 of
             Inl e \<Rightarrow> Inl e
           | Inr (launch, g2) \<Rightarrow>
               Inr (\<lparr>product_id = i, category = cat, launch_date = launch\<rparr>, g2)))"

definition gen_products :: "int \<Rightarrow> rng \<Rightarrow> error + (product list \<times> rng)" where
  "gen_products n g = rows_loop n product_row 1 [] g"

text \<open>
  3. Orders. The customer is chosen among \<^verbatim>\<open>df_customers["customer_id"].tolist()\<close>; the
  order date is drawn between the later of the customer's signup date and the global start,
  and the global end; the ship date is absent for a pending or cancelled order and 1 to 7
  days after the order date otherwise.
\<close>

definition order_row :: "customer list \<Rightarrow> int \<Rightarrow> rng \<Rightarrow> error + (order_row \<times> rng)" where
  "order_row df_customers i g =
     (case choice (map customer_id df_customers) g of
        Inl e \<Rightarrow> Inl e
      | Inr (cid, g1) \<Rightarrow>
          (case iloc0 (filter (\<lambda>c. customer_id c = cid) df_customers) of
             Inl e \<Rightarrow> Inl e
           | Inr c \<Rightarrow>
               (case date_between (max (signup_date c) START_DATE) END_DATE g1 of
                  Inl e \<Rightarrow> Inl e
                | Inr (odate, g2) \<Rightarrow>
                    (case choice ORDER_STATUSES g2 of
                       Inl e \<Rightarrow> Inl e
                     | Inr (st, g3) \<Rightarrow>
                         (if st \<in> set [Pending, Cancelled] then
                            Inr (\<lparr>order_id = i, o_customer_id = cid, order_date = odate,
                                   ship_date = None, status = st\<rparr>, g3)
                          else
                            (case randint 1 7 g3 of
                               Inl e \<Rightarrow> Inl e
                             | Inr (ship_days, g4) \<Rightarrow>
                                 Inr (\<lparr>order_id = i, o_customer_id = cid, order_date = odate,
                                        ship_date = Some (odate + ship_days), status = st\<rparr>,
                                      g4)))))))"

definition gen_orders :: "int \<Rightarrow> customer list \<Rightarrow> rng \<Rightarrow> error + (order_row list \<times> rng)" where
  "gen_orders n df_customers g = rows_loop n (order_row df_customers) 1 [] g"

text \<open>
  4. Order items. Order and product are chosen among the generated ids
  (\<^verbatim>\<open>df_orders["order_id"].tolist()\<close>, \<^verbatim>\<open>df_products["product_id"].tolist()\<close>); the base
  price is read from the first product row with the chosen id (the read is kept, as it can
  raise; the float it yields is not), and the quantity is \<^verbatim>\<open>random.randint(1, 5)\<close>.
\<close>

definition order_item_row ::
  "order_row list \<Rightarrow> product list \<Rightarrow> int \<Rightarrow> rng \<Rightarrow> error + (order_item \<times> rng)" where
  "order_item_row df_orders df_products item_id g =
     (case choice (map order_id df_orders) g of
        Inl e \<Rightarrow> Inl e
      | Inr (oid, g1) \<Rightarrow>
          (case choice (map product_id df_products) g1 of
             Inl e \<Rightarrow> Inl e
           | Inr (pid, g2) \<Rightarrow>
               (case iloc0 (filter (\<lambda>p. product_id p = pid) df_products) of
                  Inl e \<Rightarrow> Inl e
                | Inr base \<Rightarrow>
                    (case randint 1 5 g2 of
                       Inl e \<Rightarrow> Inl e
                     | Inr (q, g3) \<Rightarrow>
                         Inr (\<lparr>order_item_id = item_id, oi_order_id = oid,
                                oi_product_id = pid, quantity = q\<rparr>, g3)))))"

definition gen_order_items ::
  "int \<Rightarrow> order_row list \<Rightarrow> product list \<Rightarrow> rng \<Rightarrow> error + (order_item list \<times> rng)" where
  "gen_order_items n df_orders df_products g =
     rows_loop n (order_item_row df_orders df_products) 1 [] g"

text \<open>
  5. Shipments. The order is chosen among the ids of the orders whose status is Shipped or
  Delivered, with no guard on that list being empty. The earliest date is the order's ship
  date if it has one, else its order date; if that is after \<^verbatim>\<open>END_DATE\<close> the order date
  is taken instead; the shipment date is drawn between the earliest date and the later of
  it and \<^verbatim>\<open>END_DATE\<close>.
\<close>

definition order_ids_with_shipments :: "order_row list \<Rightarrow> int list" where
  "order_ids_with_shipments df_orders =
     map order_id (filter (\<lambda>r. status r \<in> set [Shipped, Delivered]) df_orders)"

definition shipment_row :: "order_row list \<Rightarrow> int \<Rightarrow> rng \<Rightarrow> error + (shipment \<times> rng)" where
  "shipment_row df_orders sid g =
     (case choice (order_ids_with_shipments df_orders) g of
        Inl e \<Rightarrow> Inl e
      | Inr (oid, g1) \<Rightarrow>
          (case iloc0 (filter (\<lambda>r. order_id r = oid) df_orders) of
             Inl e \<Rightarrow> Inl e
           | Inr ord \<Rightarrow>
               (let min_ship_date0 =
                      (case ship_date ord of Some d \<Rightarrow> d | None \<Rightarrow> order_date ord);
                    min_ship_date =
                      (if min_ship_date0 > END_DATE then order_date ord else min_ship_date0);
                    end_ship_date = max min_ship_date END_DATE
                in (case date_between min_ship_date end_ship_date g1 of
                      Inl e \<Rightarrow> Inl e
                    | Inr (sdate, g2) \<Rightarrow>
                        (case choice CARRIERS g2 of
                           Inl e \<Rightarrow> Inl e
                         | Inr (car, g3) \<Rightarrow>
                             Inr (\<lparr>shipment_id = sid, s_order_id = oid,
                                    shipment_date = sdate, carrier = car\<rparr>, g3))))))"

definition gen_shipments :: "int \<Rightarrow> order_row list \<Rightarrow> rng \<Rightarrow> error + (shipment list \<times> rng)" where
  "gen_shipments n df_orders g = rows_loop n (shipment_row df_orders) 1 [] g"

subsection \<open>The whole run and its self-verification\<close>

record dataset =
  customers :: "customer list"
  products :: "product list"
  orders :: "order_row list"
  order_items :: "order_item list"
  shipments :: "shipment list"

text \<open>The five steps in the script's order, each reading the frames built before it.\<close>

definition generate_collections ::
  "int \<Rightarrow> int \<Rightarrow> int \<Rightarrow> int \<Rightarrow> int \<Rightarrow> rng \<Rightarrow> error + (dataset \<times> rng)" where
  "generate_collections nc np no ni ns g =
     (case gen_customers nc g of
        Inl e \<Rightarrow> Inl e
      | Inr (cs, g1) \<Rightarrow>
          (case gen_products np g1 of
             Inl e \<Rightarrow> Inl e
           | Inr (ps, g2) \<Rightarrow>
               (case gen_orders no cs g2 of
                  Inl e \<Rightarrow> Inl e
                | Inr (os, g3) \<Rightarrow>
                    (case gen_order_items ni os ps g3 of
                       Inl e \<Rightarrow> Inl e
                     | Inr (ois, g4) \<Rightarrow>
                         (case gen_shipments ns os g4 of
                            Inl e \<Rightarrow> Inl e
                          | Inr (ss, g5) \<Rightarrow>
                              Inr (\<lparr>customers = cs, products = ps, orders = os,
                                     order_items = ois, shipments = ss\<rparr>, g5))))))"

text \<open>
  The four assertions at the end of the script, in their order; each compares the set of
  foreign-key values of a child frame with the set of keys of its parent frame.
\<close>

definition verification :: "dataset \<Rightarrow> error + unit" where
  "verification ds =
     (if \<not> set (map o_customer_id (orders ds)) \<subseteq> set (map customer_id (customers ds))
      then Inl (AssertionError ''Some orders reference non-existent customers'')
      else if \<not> set (map oi_product_id (order_items ds)) \<subseteq> set (map product_id (products ds))
      then Inl (AssertionError ''Some order_items reference non-existent products'')
      else if \<not> set (map oi_order_id (order_items ds)) \<subseteq> set (map order_id (orders ds))
      then Inl (AssertionError ''Some order_items reference non-existent orders'')
      else if \<not> set (map s_order_id (shipments ds)) \<subseteq> set (map order_id (orders ds))
      then Inl (AssertionError ''Some shipments reference non-existent orders'')
      else Inr ())"

definition generate :: "int \<Rightarrow> int \<Rightarrow> int \<Rightarrow> int \<Rightarrow> int \<Rightarrow> rng \<Rightarrow> error + dataset" where
  "generate nc np no ni ns g =
     (case generate_collections nc np no ni ns g of
        Inl e \<Rightarrow> Inl e
      | Inr (ds, g') \<Rightarrow> (case verification ds of Inl e \<Rightarrow> Inl e | Inr u \<Rightarrow> Inr ds))"

text \<open>The script itself: the run at its five constants.\<close>

definition generate_datasets :: "rng \<Rightarrow> error + dataset" where
  "generate_datasets g =
     generate NUM_CUSTOMERS NUM_PRODUCTS NUM_ORDERS NUM_ORDER_ITEMS NUM_SHIPMENTS g"

section \<open>The loader\<close>

text \<open>
  The five interchange files and the database file, as the loader sees them: a file is
  absent (\<open>None\<close>) or holds its rows in file order; the database file is absent or holds
  the five tables. What the loader prints is kept as a list of events. The engine's limit
  on the bound variables of one statement (\<^verbatim>\<open>SQLITE_MAX_VARIABLE_NUMBER\<close>, fixed when the
  engine is built) belongs to the environment of a run.
\<close>

record csv_files =
  customers_csv :: "customer list option"
  products_csv :: "product list option"
  orders_csv :: "order_row list option"
  order_items_csv :: "order_item list option"
  shipments_csv :: "shipment list option"

record database =
  t_customers :: "customer list"
  t_products :: "product list"
  t_orders :: "order_row list"
  t_order_items :: "order_item list"
  t_shipments :: "shipment list"

datatype event =
    ErrorMissingCsvFiles "string list"
  | RemovingExistingDatabase
  | Connected
  | SchemaCreated
  | Loading string string
  | WarningRemovedDuplicates nat string
  | LoadedRows nat string
  | ErrorFailedToLoad string
  | IndexesCreated
  | RowCounts "nat list"
  | IntegrityChecks "(string \<times> bool \<times> nat) list"
  | CompletedSuccessfully
  | CompletedWithWarnings
  | ErrorDatabaseOperationFailed

record world =
  files :: csv_files
  db_file :: "database option"
  console :: "event list"
  max_variable_number :: nat

subsection \<open>Schema\<close>

text \<open>
  \<^verbatim>\<open>create_database_schema\<close> drops the five tables if they exist and creates them anew:
  whatever the connection held, the five tables are empty afterwards.
\<close>

definition create_database_schema :: "database \<Rightarrow> database" where
  "create_database_schema conn =
     \<lparr>t_customers = [], t_products = [], t_orders = [], t_order_items = [], t_shipments = []\<rparr>"

subsection \<open>Loading one file\<close>

text \<open>
  \<^verbatim>\<open>df.drop_duplicates(subset=[primary_key_col], keep='first')\<close>: a row is dropped when its
  key has been seen in an earlier row; the rows kept stay in file order.
\<close>

fun drop_seen :: "('r \<Rightarrow> int) \<Rightarrow> int list \<Rightarrow> 'r list \<Rightarrow> 'r list" where
  "drop_seen key seen [] = []"
| "drop_seen key seen (r # rs) =
     (if key r \<in> set seen then drop_seen key seen rs
      else r # drop_seen key (key r # seen) rs)"

definition drop_duplicates :: "('r \<Rightarrow> int) \<Rightarrow> 'r list \<Rightarrow> 'r list" where
  "drop_duplicates key df = drop_seen key [] df"

text \<open>
  \<^verbatim>\<open>df.to_sql(table_name, conn, if_exists='append', index=False, method='multi')\<close> on a
  table with an integer primary key and declared foreign keys, foreign-key enforcement
  being on. With \<^verbatim>\<open>method='multi'\<close> and no chunk size the whole frame goes into one
  \<^verbatim>\<open>INSERT\<close> with one bound variable per cell. In the order in which the statement is
  prepared, bound and run:
  \<^item> the engine refuses a statement with more bound variables than its limit
    (\<^verbatim>\<open>OperationalError\<close>, too many SQL variables); the limit is a constant of the engine's
    build and is a parameter here, as is the number of columns of the file;
  \<^item> binding an integer outside the signed 64-bit range raises \<^verbatim>\<open>OverflowError\<close>;
    \<open>int_cells\<close> gives the integer cells of a row;
  \<^item> the engine rejects the insert when a key repeats or a foreign key has no parent row
    (\<^verbatim>\<open>IntegrityError\<close>);
  \<^item> otherwise the rows are appended. An empty frame runs no statement.
\<close>

definition sqlite_integer :: "int \<Rightarrow> bool" where
  "sqlite_integer v \<longleftrightarrow> - (2 ^ 63) \<le> v \<and> v < 2 ^ 63"

definition to_sql ::
  "nat \<Rightarrow> nat \<Rightarrow> ('r \<Rightarrow> int list) \<Rightarrow> ('r \<Rightarrow> int) \<Rightarrow> ('r \<Rightarrow> bool) \<Rightarrow> 'r list \<Rightarrow> 'r list
     \<Rightarrow> error + 'r list" where
  "to_sql max_variables ncols int_cells key fk_ok table df =
     (if df = [] then Inr table
      else if length df * ncols > max_variables
      then Inl (OperationalError ''too many SQL variables'')
      else if \<not> list_all (\<lambda>r. list_all sqlite_integer (int_cells r)) df then Inl OverflowError
      else if \<not> distinct (map key (table @ df))
      then Inl (IntegrityError ''UNIQUE constraint failed'')
      else if \<not> list_all fk_ok df then Inl (IntegrityError ''FOREIGN KEY constraint failed'')
      else Inr (table @ df))"

text \<open>
  \<^verbatim>\<open>load_csv_to_table(conn, csv_file, table_name, primary_key_col)\<close>, for the engine's
  limit, the table's shape, its current rows and its foreign-key test. It returns the
  table after the load, or the exception it re-raises, and what it printed;
  \<open>duplicates_removed\<close> is the count it reports.
\<close>

definition duplicates_removed :: "('r \<Rightarrow> int) \<Rightarrow> 'r list \<Rightarrow> nat" where
  "duplicates_removed key df = length df - length (drop_duplicates key df)"

definition load_csv_to_table ::
  "nat \<Rightarrow> nat \<Rightarrow> ('r \<Rightarrow> int list) \<Rightarrow> 'r list \<Rightarrow> ('r \<Rightarrow> bool) \<Rightarrow> string \<Rightarrow> 'r list option
     \<Rightarrow> string \<Rightarrow> ('r \<Rightarrow> int) \<Rightarrow> string \<Rightarrow> (error + 'r list) \<times> event list" where
  "load_csv_to_table max_variables ncols int_cells table fk_ok csv_file content table_name
     primary_key_col pk_name =
     (case content of
        None \<Rightarrow>
          (Inl (FileNotFoundError csv_file),
           [Loading csv_file table_name, ErrorFailedToLoad csv_file])
      | Some df0 \<Rightarrow>
          (let df = drop_duplicates primary_key_col df0;
               removed = duplicates_removed primary_key_col df0;
               warning = (if removed > 0 then [WarningRemovedDuplicates removed pk_name] else [])
           in (case to_sql max_variables ncols int_cells primary_key_col fk_ok table df of
                 Inl e \<Rightarrow>
                   (Inl e, [Loading csv_file table_name] @ warning @ [ErrorFailedToLoad csv_file])
               | Inr table' \<Rightarrow>
                   (Inr table',
                    [Loading csv_file table_name] @ warning @ [LoadedRows (length df) table_name]))))"

subsection \<open>Referential-integrity verification\<close>

text \<open>
  \<^verbatim>\<open>FROM child LEFT JOIN parent ON child.fk = parent.pk\<close>: every child row paired with each
  parent row that matches, or once with no parent when none does.
\<close>

definition left_join :: "('c \<Rightarrow> int) \<Rightarrow> ('p \<Rightarrow> int) \<Rightarrow> 'c list \<Rightarrow> 'p list \<Rightarrow> ('c \<times> 'p option) list" where
  "left_join fk pk child parent =
     concat (map (\<lambda>c. case filter (\<lambda>p. fk c = pk p) parent of
                         [] \<Rightarrow> [(c, None)]
                       | ms \<Rightarrow> map (\<lambda>p. (c, Some p)) ms) child)"

text \<open>\<^verbatim>\<open>SELECT COUNT(*) ... WHERE parent.pk IS NULL\<close>.\<close>

definition orphan_count :: "('c \<Rightarrow> int) \<Rightarrow> ('p \<Rightarrow> int) \<Rightarrow> 'c list \<Rightarrow> 'p list \<Rightarrow> nat" where
  "orphan_count fk pk child parent =
     length (filter (\<lambda>(c, p). p = None) (left_join fk pk child parent))"

definition integrity_checks :: "database \<Rightarrow> (string \<times> bool \<times> nat) list" where
  "integrity_checks conn =
     (let orphan_orders = orphan_count o_customer_id customer_id (t_orders conn) (t_customers conn);
          orphan_order_items_orders =
            orphan_count oi_order_id order_id (t_order_items conn) (t_orders conn);
          orphan_order_items_products =
            orphan_count oi_product_id product_id (t_order_items conn) (t_products conn);
          orphan_shipments = orphan_count s_order_id order_id (t_shipments conn) (t_orders conn)
      in [(''Orders -> Customers'', orphan_orders = 0, orphan_orders),
          (''Order Items -> Orders'', orphan_order_items_orders = 0, orphan_order_items_orders),
          (''Order Items -> Products'', orphan_order_items_products = 0,
             orphan_order_items_products),
          (''Shipments -> Orders'', orphan_shipments = 0, orphan_shipments)])"

text \<open>The loop over the checks: \<open>all_passed\<close> starts true and is cleared by a failed check.\<close>

fun all_passed_loop :: "(string \<times> bool \<times> nat) list \<Rightarrow> bool \<Rightarrow> bool" where
  "all_passed_loop [] all_passed = all_passed"
| "all_passed_loop ((check_name, passed, orphans) # checks) all_passed =
     all_passed_loop checks (if \<not> passed then False else all_passed)"

definition verify_referential_integrity :: "database \<Rightarrow> bool" where
  "verify_referential_integrity conn = all_passed_loop (integrity_checks conn) True"

subsection \<open>The run of the loader\<close>

definition CSV_FILES :: "string list" where
  "CSV_FILES = [''customers.csv'', ''products.csv'', ''orders.csv'', ''order_items.csv'',
     ''shipments.csv'']"

text \<open>\<^verbatim>\<open>os.path.exists(f)\<close> for the five names (no other name is asked for).\<close>

definition path_exists :: "csv_files \<Rightarrow> string \<Rightarrow> bool" where
  "path_exists fs f =
     (if f = ''customers.csv'' then customers_csv fs \<noteq> None
      else if f = ''products.csv'' then products_csv fs \<noteq> None
      else if f = ''orders.csv'' then orders_csv fs \<noteq> None
      else if f = ''order_items.csv'' then order_items_csv fs \<noteq> None
      else if f = ''shipments.csv'' then shipments_csv fs \<noteq> None
      else False)"

definition missing_files :: "csv_files \<Rightarrow> string list" where
  "missing_files fs = filter (\<lambda>f. \<not> path_exists fs f) CSV_FILES"

text \<open>
  The loads in dependency order. Every load commits its own insert, so when a load raises,
  the tables loaded before it stay as they are and the later ones stay empty. The files
  have 6, 5, 5, 5 and 6 columns; the integer columns are the keys, the foreign keys and the
  quantity.
\<close>

definition load_all ::
  "nat \<Rightarrow> csv_files \<Rightarrow> database \<Rightarrow> (error + unit) \<times> database \<times> event list" where
  "load_all max_variables fs conn =
     (case load_csv_to_table max_variables 6 (\<lambda>r. [customer_id r])
             (t_customers conn) (\<lambda>r. True) ''customers.csv'' (customers_csv fs)
             ''customers'' customer_id ''customer_id'' of
        (Inl e, out1) \<Rightarrow> (Inl e, conn, out1)
      | (Inr cs, out1) \<Rightarrow>
     (let conn1 = conn\<lparr>t_customers := cs\<rparr> in
      case load_csv_to_table max_variables 5 (\<lambda>r. [product_id r])
             (t_products conn1) (\<lambda>r. True) ''products.csv'' (products_csv fs)
             ''products'' product_id ''product_id'' of
        (Inl e, out2) \<Rightarrow> (Inl e, conn1, out1 @ out2)
      | (Inr ps, out2) \<Rightarrow>
     (let conn2 = conn1\<lparr>t_products := ps\<rparr> in
      case load_csv_to_table max_variables 5 (\<lambda>r. [order_id r, o_customer_id r])
             (t_orders conn2)
             (\<lambda>r. o_customer_id r \<in> set (map customer_id (t_customers conn2)))
             ''orders.csv'' (orders_csv fs) ''orders'' order_id ''order_id'' of
        (Inl e, out3) \<Rightarrow> (Inl e, conn2, out1 @ out2 @ out3)
      | (Inr os, out3) \<Rightarrow>
     (let conn3 = conn2\<lparr>t_orders := os\<rparr> in
      case load_csv_to_table max_variables 5
             (\<lambda>r. [order_item_id r, oi_order_id r, oi_product_id r, quantity r])
             (t_order_items conn3)
             (\<lambda>r. oi_order_id r \<in> set (map order_id (t_orders conn3)) \<and>
                  oi_product_id r \<in> set (map product_id (t_products conn3)))
             ''order_items.csv'' (order_items_csv fs) ''order_items'' order_item_id
             ''order_item_id'' of
        (Inl e, out4) \<Rightarrow> (Inl e, conn3, out1 @ out2 @ out3 @ out4)
      | (Inr ois, out4) \<Rightarrow>
     (let conn4 = conn3\<lparr>t_order_items := ois\<rparr> in
      case load_csv_to_table max_variables 6 (\<lambda>r. [shipment_id r, s_order_id r])
             (t_shipments conn4)
             (\<lambda>r. s_order_id r \<in> set (map order_id (t_orders conn4)))
             ''shipments.csv'' (shipments_csv fs) ''shipments'' shipment_id ''shipment_id'' of
        (Inl e, out5) \<Rightarrow> (Inl e, conn4, out1 @ out2 @ out3 @ out4 @ out5)
      | (Inr ss, out5) \<Rightarrow>
          (Inr (), conn4\<lparr>t_shipments := ss\<rparr>, out1 @ out2 @ out3 @ out4 @ out5))))))"

definition print_table_counts :: "database \<Rightarrow> event" where
  "print_table_counts conn =
     RowCounts [length (t_customers conn), length (t_products conn), length (t_orders conn),
                length (t_order_items conn), length (t_shipments conn)]"

text \<open>
  \<^verbatim>\<open>main()\<close>. With a file missing it prints the missing names and returns. Otherwise it
  removes the database file if there is one, connects (which creates the file), creates
  the schema, loads the five files, creates the indexes, prints the row counts and
  verifies; an exception on the way is printed and the connection closed.
\<close>

definition main :: "world \<Rightarrow> world" where
  "main w =
     (let missing = missing_files (files w) in
      if missing \<noteq> [] then w\<lparr>console := console w @ [ErrorMissingCsvFiles missing]\<rparr>
      else
        (let removing = (if db_file w \<noteq> None then [RemovingExistingDatabase] else []);
             conn0 = create_database_schema
                       \<lparr>t_customers = [], t_products = [], t_orders = [], t_order_items = [],
                        t_shipments = []\<rparr>
         in (case load_all (max_variable_number w) (files w) conn0 of
               (Inl e, conn, out) \<Rightarrow>
                 w\<lparr>db_file := Some conn,
                   console := console w @ removing @ [Connected, SchemaCreated] @ out @
                              [ErrorDatabaseOperationFailed]\<rparr>
             | (Inr u, conn, out) \<Rightarrow>
                 (let integrity_ok = verify_referential_integrity conn in
                  w\<lparr>db_file := Some conn,
                    console := console w @ removing @ [Connected, SchemaCreated] @ out @
                               [IndexesCreated, print_table_counts conn,
                                IntegrityChecks (integrity_checks conn),
                                (if integrity_ok then CompletedSuccessfully
                                 else CompletedWithWarnings)]\<rparr>))))"

section \<open>A sample run\<close>

text \<open>
  Two customers, one product, three orders, two order items and two shipments, from the
  raw draws below. The second order is placed two days before \<^verbatim>\<open>END_DATE\<close> and ships
  three days later, after the horizon; the first shipment is for it.
\<close>

definition sample_rng :: "nat list \<Rightarrow> nat list \<Rightarrow> rng" where
  "sample_rng rs fs = \<lparr>random_src = rs @- sconst 0, faker_src = fs @- sconst 0\<rparr>"

definition sample_customers :: "customer list" where
  "sample_customers =
     [\<lparr>customer_id = 1, signup_date = 738166, country = ''United States''\<rparr>,
      \<lparr>customer_id = 2, signup_date = 738256, country = ''Canada''\<rparr>]"

definition sample_products :: "product list" where
  "sample_products = [\<lparr>product_id = 1, category = ''Books'', launch_date = 738161\<rparr>]"

definition sample_orders :: "order_row list" where
  "sample_orders =
     [\<lparr>order_id = 1, o_customer_id = 1, order_date = 738186, ship_date = None,
        status = Pending\<rparr>,
      \<lparr>order_id = 2, o_customer_id = 2, order_date = 739553, ship_date = Some 739556,
        status = Shipped\<rparr>,
      \<lparr>order_id = 3, o_customer_id = 1, order_date = 738196, ship_date = Some 738203,
        status = Delivered\<rparr>]"

definition sample_order_items :: "order_item list" where
  "sample_order_items =
     [\<lparr>order_item_id = 1, oi_order_id = 2, oi_product_id = 1, quantity = 5\<rparr>,
      \<lparr>order_item_id = 2, oi_order_id = 3, oi_product_id = 1, quantity = 1\<rparr>]"

definition sample_shipments :: "shipment list" where
  "sample_shipments =
     [\<lparr>shipment_id = 1, s_order_id = 2, shipment_date = 739554, carrier = ''FedEx''\<rparr>,
      \<lparr>shipment_id = 2, s_order_id = 3, shipment_date = 738206, carrier = ''UPS''\<rparr>]"

definition sample_dataset :: dataset where
  "sample_dataset =
     \<lparr>customers = sample_customers, products = sample_products, orders = sample_orders,
      order_items = sample_order_items, shipments = sample_shipments\<rparr>"

text \<open>The sample dataset as loaded, with one more order whose customer does not exist.\<close>

definition sample_orphan_db :: database where
  "sample_orphan_db =
     \<lparr>t_customers = sample_customers, t_products = sample_products,
      t_orders = sample_orders @
        [\<lparr>order_id = 4, o_customer_id = 99999, order_date = 738400, ship_date = None,
          status = Pending\<rparr>],
      t_order_items = sample_order_items, t_shipments = sample_shipments\<rparr>"

text \<open>A directory where \<^verbatim>\<open>shipments.csv\<close> is missing, beside a database loaded earlier.\<close>

definition sample_world :: world where
  "sample_world =
     \<lparr>files = \<lparr>customers_csv = Some sample_customers, products_csv = Some sample_products,
                orders_csv = Some sample_orders, order_items_csv = Some sample_order_items,
                shipments_csv = None\<rparr>,
      db_file = Some sample_orphan_db,
      console = [],
      max_variable_number = 32766\<rparr>"

section \<open>Properties of the generator\<close>

subsection \<open>The random draws and the frame lookup\<close>

lemma choice_Inr: "choice seq g = Inr (x, g') \<Longrightarrow> x \<in> set seq"
  by (auto simp: choice_def next_random_def split: if_splits)

lemma choice_Inl: "choice seq g = Inl e \<Longrightarrow> seq = [] \<and> e = IndexError"
  by (auto simp: choice_def next_random_def split: if_splits)

lemma choice_empty: "choice [] g = Inl IndexError"
  by (simp add: choice_def)

lemma choice_total: "seq \<noteq> [] \<Longrightarrow> \<exists>x g'. choice seq g = Inr (x, g')"
  by (simp add: choice_def next_random_def)

lemma randint_Inr: "randint a b g = Inr (x, g') \<Longrightarrow> a \<le> x \<and> x \<le> b"
proof -
  assume h: "randint a b g = Inr (x, g')"
  then have ab: "a \<le> b" by (auto simp: randint_def split: if_splits)
  then have pos: "0 < b - a + 1" by simp
  from h ab have x: "x = a + int (shd (random_src g)) mod (b - a + 1)"
    by (auto simp: randint_def next_random_def split: if_splits)
  have "0 \<le> int (shd (random_src g)) mod (b - a + 1)"
    using pos by (rule pos_mod_sign)
  moreover have "int (shd (random_src g)) mod (b - a + 1) < b - a + 1"
    using pos by (rule pos_mod_bound)
  ultimately show ?thesis using x by linarith
qed

lemma randint_total: "a \<le> b \<Longrightarrow> \<exists>x g'. randint a b g = Inr (x, g')"
  by (simp add: randint_def next_random_def)

lemma date_between_Inr:
  "date_between s e g = Inr (d, g') \<Longrightarrow> s \<le> d \<and> d \<le> e"
proof -
  assume h: "date_between s e g = Inr (d, g')"
  then have se: "s \<le> e" by (auto simp: date_between_def split: if_splits)
  then have pos: "0 < e - s + 1" by simp
  from h se have x: "d = s + int (shd (faker_src g)) mod (e - s + 1)"
    by (auto simp: date_between_def next_faker_def split: if_splits)
  have "0 \<le> int (shd (faker_src g)) mod (e - s + 1)"
    using pos by (rule pos_mod_sign)
  moreover have "int (shd (faker_src g)) mod (e - s + 1) < e - s + 1"
    using pos by (rule pos_mod_bound)
  ultimately show ?thesis using x by linarith
qed

lemma date_between_total: "s \<le> e \<Longrightarrow> \<exists>d g'. date_between s e g = Inr (d, g')"
  by (simp add: date_between_def next_faker_def)

lemma iloc0_Inr: "iloc0 rows = Inr r \<Longrightarrow> rows \<noteq> [] \<and> r = hd rows"
  by (auto simp: iloc0_def split: list.splits)

lemma iloc0_filter:
  "iloc0 (filter P rows) = Inr r \<Longrightarrow> r \<in> set rows \<and> P r \<and> find P rows = Some r"
  by (induction rows) (auto simp: iloc0_def split: list.splits if_splits)

lemma iloc0_filter_total: "\<exists>x\<in>set rows. P x \<Longrightarrow> \<exists>r. iloc0 (filter P rows) = Inr r"
  by (auto simp: iloc0_def filter_empty_conv split: list.splits)

subsection \<open>The generation loop\<close>

text \<open>A property of every row a round yields holds of every row of the loop's result.\<close>

lemma rows_loop_inv:
  "rows_loop n body i rows g = Inr (out, g') \<Longrightarrow>
   (\<And>j h row h'. body j h = Inr (row, h') \<Longrightarrow> P row) \<Longrightarrow>
   \<forall>r\<in>set rows. P r \<Longrightarrow> \<forall>r\<in>set out. P r"
proof (induction n body i rows g rule: rows_loop.induct)
  case (1 n body i rows g)
  show ?case
  proof (cases "i \<le> n")
    case False
    with "1.prems" show ?thesis by (simp add: rows_loop.simps)
  next
    case True
    show ?thesis
    proof (cases "body i g")
      case (Inl e)
      with True "1.prems" show ?thesis by (simp add: rows_loop.simps)
    next
      case (Inr p)
      obtain row g1 where p: "p = (row, g1)" by (cases p)
      from Inr p have b: "body i g = Inr (row, g1)" by simp
      with True "1.prems"(1) have run: "rows_loop n body (i + 1) (rows @ [row]) g1 = Inr (out, g')"
        by (simp add: rows_loop.simps)
      have "P row" using b by (rule "1.prems"(2))
      then have "\<forall>r\<in>set (rows @ [row]). P r" using "1.prems"(3) by simp
      with "1.IH" [OF True b refl run "1.prems"(2)] show ?thesis by simp
    qed
  qed
qed

text \<open>The keys of the rows are the counter's values.\<close>

lemma rows_loop_keys:
  "rows_loop n body i rows g = Inr (out, g') \<Longrightarrow>
   (\<And>j h row h'. body j h = Inr (row, h') \<Longrightarrow> key row = j) \<Longrightarrow>
   map key out = map key rows @ [i..n]"
proof (induction n body i rows g rule: rows_loop.induct)
  case (1 n body i rows g)
  show ?case
  proof (cases "i \<le> n")
    case False
    with "1.prems" show ?thesis by (simp add: rows_loop.simps)
  next
    case True
    show ?thesis
    proof (cases "body i g")
      case (Inl e)
      with True "1.prems" show ?thesis by (simp add: rows_loop.simps)
    next
      case (Inr p)
      obtain row g1 where p: "p = (row, g1)" by (cases p)
      from Inr p have b: "body i g = Inr (row, g1)" by simp
      with True "1.prems"(1) have run: "rows_loop n body (i + 1) (rows @ [row]) g1 = Inr (out, g')"
        by (simp add: rows_loop.simps)
      have k: "key row = i" using b by (rule "1.prems"(2))
      have "map key out = map key (rows @ [row]) @ [i + 1..n]"
        using "1.IH" [OF True b refl run "1.prems"(2)] by simp
      moreover have "[i..n] = i # [i + 1..n]" using True by (simp add: upto_rec1)
      ultimately show ?thesis using k by simp
    qed
  qed
qed

text \<open>The loop fails exactly when a round of it does; it returns when no round fails.\<close>

lemma rows_loop_total:
  "(\<And>j h. \<exists>row h'. body j h = Inr (row, h')) \<Longrightarrow>
   \<exists>out g'. rows_loop n body i rows g = Inr (out, g')"
proof (induction n body i rows g rule: rows_loop.induct)
  case (1 n body i rows g)
  show ?case
  proof (cases "i \<le> n")
    case False
    then show ?thesis by (simp add: rows_loop.simps)
  next
    case True
    obtain row g1 where b: "body i g = Inr (row, g1)" using "1.prems" by blast
    from "1.IH" [OF True b refl "1.prems"]
    obtain out g' where "rows_loop n body (i + 1) (rows @ [row]) g1 = Inr (out, g')" by blast
    with True b show ?thesis by (simp add: rows_loop.simps)
  qed
qed

lemma rows_loop_first_fails:
  "i \<le> n \<Longrightarrow> body i g = Inl e \<Longrightarrow> rows_loop n body i rows g = Inl e"
  by (simp add: rows_loop.simps)

subsection \<open>One order\<close>

lemma order_row_key: "order_row cs i g = Inr (r, g') \<Longrightarrow> order_id r = i"
  unfolding order_row_def by (auto split: sum.splits prod.splits if_splits)

lemma order_row_customer:
  "order_row cs i g = Inr (r, g') \<Longrightarrow> o_customer_id r \<in> set (map customer_id cs)"
  unfolding order_row_def
  by (auto split: sum.splits prod.splits if_splits dest!: choice_Inr)

lemma order_row_dates:
  "order_row cs i g = Inr (r, g') \<Longrightarrow>
   \<exists>c. find (\<lambda>c. customer_id c = o_customer_id r) cs = Some c \<and>
       max (signup_date c) START_DATE \<le> order_date r \<and> order_date r \<le> END_DATE"
  unfolding order_row_def
  by (auto split: sum.splits prod.splits if_splits dest!: iloc0_filter date_between_Inr)

lemma order_row_ship_date:
  "order_row cs i g = Inr (r, g') \<Longrightarrow>
   (ship_date r = None \<longleftrightarrow> status r \<in> {Pending, Cancelled}) \<and>
   (status r \<notin> {Pending, Cancelled} \<longrightarrow>
      (\<exists>k. 1 \<le> k \<and> k \<le> 7 \<and> ship_date r = Some (order_date r + k)))"
  unfolding order_row_def
  by (auto split: sum.splits prod.splits if_splits dest!: randint_Inr)

subsection \<open>The sample run, step by step\<close>

lemmas sample_eval =
  sample_rng_def rows_loop.simps date_between_def choice_def randint_def next_random_def
  next_faker_def iloc0_def START_DATE_def END_DATE_def SIGNUP_END_def LAUNCH_END_def
  COUNTRIES_def CATEGORIES_def ORDER_STATUSES_def CARRIERS_def

lemma sample_gen_customers:
  "gen_customers 2 (sample_rng [0, 2, 4, 0, 0, 1, 2, 2, 0, 3, 6, 1, 0, 4, 2, 0, 0, 0, 1, 1, 0]
                               [10, 100, 5, 20, 1297, 30, 7, 3])
   = Inr (sample_customers,
          sample_rng [4, 0, 0, 1, 2, 2, 0, 3, 6, 1, 0, 4, 2, 0, 0, 0, 1, 1, 0]
                     [5, 20, 1297, 30, 7, 3])"
  by (simp add: gen_customers_def customer_row_def sample_customers_def sample_eval)

lemma sample_gen_products:
  "gen_products 1 (sample_rng [4, 0, 0, 1, 2, 2, 0, 3, 6, 1, 0, 4, 2, 0, 0, 0, 1, 1, 0]
                              [5, 20, 1297, 30, 7, 3])
   = Inr (sample_products,
          sample_rng [0, 0, 1, 2, 2, 0, 3, 6, 1, 0, 4, 2, 0, 0, 0, 1, 1, 0]
                     [20, 1297, 30, 7, 3])"
  by (simp add: gen_products_def product_row_def sample_products_def sample_eval)

lemma sample_gen_orders:
  "gen_orders 3 sample_customers
     (sample_rng [0, 0, 1, 2, 2, 0, 3, 6, 1, 0, 4, 2, 0, 0, 0, 1, 1, 0] [20, 1297, 30, 7, 3])
   = Inr (sample_orders, sample_rng [1, 0, 4, 2, 0, 0, 0, 1, 1, 0] [7, 3])"
  by (simp add: gen_orders_def order_row_def sample_customers_def sample_orders_def sample_eval)

lemma sample_gen_order_items:
  "gen_order_items 2 sample_orders sample_products
     (sample_rng [1, 0, 4, 2, 0, 0, 0, 1, 1, 0] [7, 3])
   = Inr (sample_order_items, sample_rng [0, 1, 1, 0] [7, 3])"
  by (simp add: gen_order_items_def order_item_row_def sample_orders_def sample_products_def
      sample_order_items_def sample_eval)

lemma sample_gen_shipments:
  "gen_shipments 2 sample_orders (sample_rng [0, 1, 1, 0] [7, 3])
   = Inr (sample_shipments, sample_rng [] [])"
  by (simp add: gen_shipments_def shipment_row_def order_ids_with_shipments_def
      sample_orders_def sample_shipments_def sample_eval)

lemma sample_generate_collections:
  "generate_collections 2 1 3 2 2
     (sample_rng [0, 2, 4, 0, 0, 1, 2, 2, 0, 3, 6, 1, 0, 4, 2, 0, 0, 0, 1, 1, 0]
                 [10, 100, 5, 20, 1297, 30, 7, 3])
   = Inr (sample_dataset, sample_rng [] [])"
  unfolding generate_collections_def sample_gen_customers sum.case prod.case
    sample_gen_products sample_gen_orders sample_gen_order_items sample_gen_shipments
    sample_dataset_def
  by (rule refl)

subsection \<open>Customers and orders\<close>

lemma customer_row_key: "customer_row i g = Inr (c, g') \<Longrightarrow> customer_id c = i"
  unfolding customer_row_def by (auto split: sum.splits prod.splits)

lemma gen_customers_keys:
  "gen_customers n g = Inr (cs, g') \<Longrightarrow> map customer_id cs = [1..n]"
  unfolding gen_customers_def
  by (drule rows_loop_keys [where key = customer_id]) (auto dest: customer_row_key)

lemma gen_customers_distinct:
  "gen_customers n g = Inr (cs, g') \<Longrightarrow> distinct (map customer_id cs)"
  by (simp add: gen_customers_keys)

lemma gen_orders_keys:
  "gen_orders n cs g = Inr (os, g') \<Longrightarrow> map order_id os = [1..n]"
  unfolding gen_orders_def
  by (drule rows_loop_keys [where key = order_id]) (auto dest: order_row_key)

lemma gen_orders_distinct:
  "gen_orders n cs g = Inr (os, g') \<Longrightarrow> distinct (map order_id os)"
  by (simp add: gen_orders_keys)

lemma gen_orders_customer:
  assumes "gen_orders n cs g = Inr (os, g')" and "r \<in> set os"
  shows "o_customer_id r \<in> set (map customer_id cs)"
proof -
  have "\<forall>r\<in>set os. o_customer_id r \<in> set (map customer_id cs)"
    using assms(1) unfolding gen_orders_def
    by (rule rows_loop_inv) (auto dest: order_row_customer)
  with assms(2) show ?thesis by blast
qed

lemma gen_orders_dates:
  assumes "gen_orders n cs g = Inr (os, g')" and "r \<in> set os"
  shows "\<exists>c. find (\<lambda>c. customer_id c = o_customer_id r) cs = Some c \<and>
             max (signup_date c) START_DATE \<le> order_date r \<and> order_date r \<le> END_DATE"
proof -
  have "\<forall>r\<in>set os. \<exists>c. find (\<lambda>c. customer_id c = o_customer_id r) cs = Some c \<and>
             max (signup_date c) START_DATE \<le> order_date r \<and> order_date r \<le> END_DATE"
    using assms(1) unfolding gen_orders_def
    by (rule rows_loop_inv) (auto dest: order_row_dates)
  with assms(2) show ?thesis by blast
qed

lemma gen_orders_ship_date:
  assumes "gen_orders n cs g = Inr (os, g')" and "r \<in> set os"
  shows "(ship_date r = None \<longleftrightarrow> status r \<in> {Pending, Cancelled}) \<and>
         (status r \<notin> {Pending, Cancelled} \<longrightarrow>
            (\<exists>k. 1 \<le> k \<and> k \<le> 7 \<and> ship_date r = Some (order_date r + k)))"
proof -
  have "\<forall>r\<in>set os. (ship_date r = None \<longleftrightarrow> status r \<in> {Pending, Cancelled}) \<and>
         (status r \<notin> {Pending, Cancelled} \<longrightarrow>
            (\<exists>k. 1 \<le> k \<and> k \<le> 7 \<and> ship_date r = Some (order_date r + k)))"
    using assms(1) unfolding gen_orders_def
    by (rule rows_loop_inv) (auto dest: order_row_ship_date)
  with assms(2) show ?thesis by blast
qed

lemma same_key_same_row:
  "distinct (map key rows) \<Longrightarrow> x \<in> set rows \<Longrightarrow> y \<in> set rows \<Longrightarrow> key x = key y \<Longrightarrow> x = y"
  by (meson distinct_map inj_onD)

lemma find_unique:
  assumes "distinct (map key rows)" and "find (\<lambda>x. key x = k) rows = Some y"
    and "x \<in> set rows" and "key x = k"
  shows "x = y"
proof -
  from assms(2) have "y \<in> set rows \<and> key y = k"
    by (auto simp: find_Some_iff)
  with assms(1,3,4) show ?thesis by (auto dest: same_key_same_row)
qed

subsection \<open>Ship date and status of an order\<close>

text \<open>
  C3. For every generated order, the ship date is absent exactly when the status is
  Pending or Cancelled; for every other status it is the order date plus a whole number of
  days between 1 and 7.
\<close>

theorem orders_ship_date_by_status:
  assumes "gen_orders n df_customers g = Inr (os, g')" and "r \<in> set os"
  shows "(ship_date r = None \<longleftrightarrow> status r = Pending \<or> status r = Cancelled) \<and>
         (status r \<noteq> Pending \<and> status r \<noteq> Cancelled \<longrightarrow>
            (\<exists>k. 1 \<le> k \<and> k \<le> 7 \<and> ship_date r = Some (order_date r + k)))"
  using gen_orders_ship_date [OF assms] by simp

theorem orders_ship_date_by_status_witness:
  "gen_orders 3 sample_customers
     (sample_rng [0, 0, 1, 2, 2, 0, 3, 6, 1, 0, 4, 2, 0, 0, 0, 1, 1, 0] [20, 1297, 30, 7, 3])
     = Inr (sample_orders, sample_rng [1, 0, 4, 2, 0, 0, 0, 1, 1, 0] [7, 3]) \<and>
   sample_orders ! 0 \<in> set sample_orders \<and>
   status (sample_orders ! 0) = Pending \<and> ship_date (sample_orders ! 0) = None \<and>
   sample_orders ! 1 \<in> set sample_orders \<and>
   status (sample_orders ! 1) = Shipped \<and>
   (\<exists>k. 1 \<le> k \<and> k \<le> 7 \<and>
        ship_date (sample_orders ! 1) = Some (order_date (sample_orders ! 1) + k))"
proof -
  have m0: "sample_orders ! 0 \<in> set sample_orders" by (simp add: sample_orders_def)
  have s0: "status (sample_orders ! 0) = Pending" by (simp add: sample_orders_def)
  have m1: "sample_orders ! 1 \<in> set sample_orders" by (simp add: sample_orders_def)
  have s1: "status (sample_orders ! 1) = Shipped" by (simp add: sample_orders_def)
  from orders_ship_date_by_status [OF sample_gen_orders m0] s0
  have "ship_date (sample_orders ! 0) = None" by simp
  moreover from orders_ship_date_by_status [OF sample_gen_orders m1] s1
  have "\<exists>k. 1 \<le> k \<and> k \<le> 7 \<and>
          ship_date (sample_orders ! 1) = Some (order_date (sample_orders ! 1) + k)"
    by simp
  ultimately show ?thesis using sample_gen_orders m0 s0 m1 s1 by blast
qed

subsection \<open>Order date and signup date\<close>

text \<open>
  C7. For every generated order, the order date lies between the later of the referenced
  customer's signup date and the global start date, and the global end date; so it is not
  before the signup date of the referenced customer.
\<close>

theorem order_date_after_signup:
  assumes "gen_customers nc g0 = Inr (cs, g1)" and "gen_orders n cs g = Inr (os, g')"
    and "r \<in> set os" and "c \<in> set cs" and "customer_id c = o_customer_id r"
  shows "max (signup_date c) START_DATE \<le> order_date r \<and> order_date r \<le> END_DATE \<and>
         signup_date c \<le> order_date r"
proof -
  from gen_orders_dates [OF assms(2,3)] obtain c' where
    f: "find (\<lambda>c. customer_id c = o_customer_id r) cs = Some c'" and
    d: "max (signup_date c') START_DATE \<le> order_date r" "order_date r \<le> END_DATE"
    by blast
  have "c = c'"
    using gen_customers_distinct [OF assms(1)] f assms(4,5) by (rule find_unique)
  with d show ?thesis by simp
qed

theorem order_date_after_signup_witness:
  "gen_customers 2
     (sample_rng [0, 2, 4, 0, 0, 1, 2, 2, 0, 3, 6, 1, 0, 4, 2, 0, 0, 0, 1, 1, 0]
                 [10, 100, 5, 20, 1297, 30, 7, 3])
     = Inr (sample_customers,
            sample_rng [4, 0, 0, 1, 2, 2, 0, 3, 6, 1, 0, 4, 2, 0, 0, 0, 1, 1, 0]
                       [5, 20, 1297, 30, 7, 3]) \<and>
   gen_orders 3 sample_customers
     (sample_rng [0, 0, 1, 2, 2, 0, 3, 6, 1, 0, 4, 2, 0, 0, 0, 1, 1, 0] [20, 1297, 30, 7, 3])
     = Inr (sample_orders, sample_rng [1, 0, 4, 2, 0, 0, 0, 1, 1, 0] [7, 3]) \<and>
   sample_orders ! 1 \<in> set sample_orders \<and> sample_customers ! 1 \<in> set sample_customers \<and>
   customer_id (sample_customers ! 1) = o_customer_id (sample_orders ! 1) \<and>
   signup_date (sample_customers ! 1) = 738256 \<and> order_date (sample_orders ! 1) = 739553 \<and>
   max (signup_date (sample_customers ! 1)) START_DATE \<le> order_date (sample_orders ! 1) \<and>
   order_date (sample_orders ! 1) \<le> END_DATE \<and>
   signup_date (sample_customers ! 1) \<le> order_date (sample_orders ! 1)"
proof -
  have mo: "sample_orders ! 1 \<in> set sample_orders" by (simp add: sample_orders_def)
  have mc: "sample_customers ! 1 \<in> set sample_customers" by (simp add: sample_customers_def)
  have k: "customer_id (sample_customers ! 1) = o_customer_id (sample_orders ! 1)"
    by (simp add: sample_customers_def sample_orders_def)
  have v: "signup_date (sample_customers ! 1) = 738256" "order_date (sample_orders ! 1) = 739553"
    by (simp_all add: sample_customers_def sample_orders_def)
  from order_date_after_signup [OF sample_gen_customers sample_gen_orders mo mc k]
  show ?thesis using sample_gen_customers sample_gen_orders mo mc k v by blast
qed

subsection \<open>Order items and shipments\<close>

lemma order_item_row_refs:
  "order_item_row os ps i g = Inr (r, g') \<Longrightarrow>
   oi_order_id r \<in> set (map order_id os) \<and> oi_product_id r \<in> set (map product_id ps)"
  unfolding order_item_row_def
  by (auto split: sum.splits prod.splits dest!: choice_Inr)

lemma order_item_row_quantity:
  "order_item_row os ps i g = Inr (r, g') \<Longrightarrow> 1 \<le> quantity r \<and> quantity r \<le> 5"
  unfolding order_item_row_def
  by (auto split: sum.splits prod.splits dest!: randint_Inr)

lemma gen_order_items_refs:
  assumes "gen_order_items n os ps g = Inr (ois, g')" and "r \<in> set ois"
  shows "oi_order_id r \<in> set (map order_id os) \<and> oi_product_id r \<in> set (map product_id ps)"
proof -
  have "\<forall>r\<in>set ois. oi_order_id r \<in> set (map order_id os) \<and>
                      oi_product_id r \<in> set (map product_id ps)"
    using assms(1) unfolding gen_order_items_def
    by (rule rows_loop_inv) (auto dest: order_item_row_refs)
  with assms(2) show ?thesis by blast
qed

lemma gen_order_items_quantity:
  assumes "gen_order_items n os ps g = Inr (ois, g')" and "r \<in> set ois"
  shows "1 \<le> quantity r \<and> quantity r \<le> 5"
proof -
  have "\<forall>r\<in>set ois. 1 \<le> quantity r \<and> quantity r \<le> 5"
    using assms(1) unfolding gen_order_items_def
    by (rule rows_loop_inv) (auto dest: order_item_row_quantity)
  with assms(2) show ?thesis by blast
qed

lemma order_ids_with_shipments_iff:
  "oid \<in> set (order_ids_with_shipments os) \<longleftrightarrow>
   (\<exists>r\<in>set os. order_id r = oid \<and> (status r = Shipped \<or> status r = Delivered))"
  by (auto simp: order_ids_with_shipments_def)

lemma order_ids_with_shipments_empty:
  "order_ids_with_shipments os = [] \<longleftrightarrow>
   \<not> (\<exists>r\<in>set os. status r = Shipped \<or> status r = Delivered)"
  by (auto simp: order_ids_with_shipments_def filter_empty_conv)

text \<open>
  What one round of the shipment loop yields: an order id out of the Shipped or Delivered
  ones, and a date not before the earliest date the round computes for the first order row
  with that id, nor after the later of that date and \<^verbatim>\<open>END_DATE\<close>.
\<close>

lemma shipment_row_order:
  "shipment_row os i g = Inr (s, g') \<Longrightarrow> s_order_id s \<in> set (order_ids_with_shipments os)"
  unfolding shipment_row_def Let_def
  by (auto split: sum.splits prod.splits dest!: choice_Inr)

lemma shipment_row_dates:
  "shipment_row os i g = Inr (s, g') \<Longrightarrow>
   \<exists>r. find (\<lambda>r. order_id r = s_order_id s) os = Some r \<and>
       (case ship_date r of
          Some d \<Rightarrow> if d \<le> END_DATE then d \<le> shipment_date s
                    else order_date r \<le> shipment_date s
        | None \<Rightarrow> order_date r \<le> shipment_date s) \<and>
       (order_date r \<le> END_DATE \<longrightarrow> shipment_date s \<le> END_DATE)"
  unfolding shipment_row_def Let_def
  by (auto split: sum.splits prod.splits option.splits if_splits
      dest!: iloc0_filter date_between_Inr)

lemma gen_shipments_order:
  assumes "gen_shipments n os g = Inr (ss, g')" and "s \<in> set ss"
  shows "s_order_id s \<in> set (order_ids_with_shipments os)"
proof -
  have "\<forall>s\<in>set ss. s_order_id s \<in> set (order_ids_with_shipments os)"
    using assms(1) unfolding gen_shipments_def
    by (rule rows_loop_inv) (auto dest: shipment_row_order)
  with assms(2) show ?thesis by blast
qed

lemma gen_shipments_dates:
  assumes "gen_shipments n os g = Inr (ss, g')" and "s \<in> set ss"
  shows "\<exists>r. find (\<lambda>r. order_id r = s_order_id s) os = Some r \<and>
       (case ship_date r of
          Some d \<Rightarrow> if d \<le> END_DATE then d \<le> shipment_date s
                    else order_date r \<le> shipment_date s
        | None \<Rightarrow> order_date r \<le> shipment_date s) \<and>
       (order_date r \<le> END_DATE \<longrightarrow> shipment_date s \<le> END_DATE)"
proof -
  have "\<forall>s\<in>set ss. \<exists>r. find (\<lambda>r. order_id r = s_order_id s) os = Some r \<and>
       (case ship_date r of
          Some d \<Rightarrow> if d \<le> END_DATE then d \<le> shipment_date s
                    else order_date r \<le> shipment_date s
        | None \<Rightarrow> order_date r \<le> shipment_date s) \<and>
       (order_date r \<le> END_DATE \<longrightarrow> shipment_date s \<le> END_DATE)"
    using assms(1) unfolding gen_shipments_def
  proof (rule rows_loop_inv)
    fix j h row h'
    assume "shipment_row os j h = Inr (row, h')"
    then show "\<exists>r. find (\<lambda>r. order_id r = s_order_id row) os = Some r \<and>
       (case ship_date r of
          Some d \<Rightarrow> if d \<le> END_DATE then d \<le> shipment_date row
                    else order_date r \<le> shipment_date row
        | None \<Rightarrow> order_date r \<le> shipment_date row) \<and>
       (order_date r \<le> END_DATE \<longrightarrow> shipment_date row \<le> END_DATE)"
      by (rule shipment_row_dates)
  qed simp
  with assms(2) show ?thesis by blast
qed

lemma generate_collections_steps:
  assumes "generate_collections nc np no ni ns g = Inr (ds, g')"
  shows "\<exists>g1 g2 g3 g4.
           gen_customers nc g = Inr (customers ds, g1) \<and>
           gen_products np g1 = Inr (products ds, g2) \<and>
           gen_orders no (customers ds) g2 = Inr (orders ds, g3) \<and>
           gen_order_items ni (orders ds) (products ds) g3 = Inr (order_items ds, g4) \<and>
           gen_shipments ns (orders ds) g4 = Inr (shipments ds, g')"
  using assms unfolding generate_collections_def
  by (auto split: sum.splits prod.splits)

lemma gen_products_keys:
  "gen_products n g = Inr (ps, g') \<Longrightarrow> map product_id ps = [1..n]"
  unfolding gen_products_def
  by (drule rows_loop_keys [where key = product_id])
     (auto simp: product_row_def split: sum.splits prod.splits)

lemma shipment_row_total:
  assumes "order_ids_with_shipments os \<noteq> []"
  shows "\<exists>row h'. shipment_row os j h = Inr (row, h')"
proof -
  obtain oid g1 where c: "choice (order_ids_with_shipments os) h = Inr (oid, g1)"
    using choice_total [OF assms] by blast
  then have "oid \<in> set (order_ids_with_shipments os)" by (rule choice_Inr)
  then have "\<exists>x\<in>set os. order_id x = oid" by (auto simp: order_ids_with_shipments_iff)
  then obtain r where i: "iloc0 (filter (\<lambda>r. order_id r = oid) os) = Inr r"
    using iloc0_filter_total [of os "\<lambda>r. order_id r = oid"] by blast
  define m0 where "m0 = (case ship_date r of Some d \<Rightarrow> d | None \<Rightarrow> order_date r)"
  define m where "m = (if m0 > END_DATE then order_date r else m0)"
  have "m \<le> max m END_DATE" by simp
  then obtain d g2 where b: "date_between m (max m END_DATE) g1 = Inr (d, g2)"
    using date_between_total by blast
  have "CARRIERS \<noteq> []" by (simp add: CARRIERS_def)
  then obtain car g3 where k: "choice CARRIERS g2 = Inr (car, g3)"
    using choice_total by blast
  have "shipment_row os j h =
          Inr (\<lparr>shipment_id = j, s_order_id = oid, shipment_date = d, carrier = car\<rparr>, g3)"
    unfolding shipment_row_def Let_def
    by (simp only: c i b [unfolded m_def m0_def] k sum.case prod.case)
  then show ?thesis by blast
qed

lemma order_ids_with_shipments_subset:
  "set (order_ids_with_shipments os) \<subseteq> order_id ` set os"
  by (auto simp: order_ids_with_shipments_def)

lemma shipment_row_fails:
  "order_ids_with_shipments os = [] \<Longrightarrow> shipment_row os j h = Inl IndexError"
  by (simp add: shipment_row_def choice_empty)

subsection \<open>Foreign keys of the generated rows\<close>

text \<open>
  C2. In a run that generates the five collections, every order's customer id is a
  generated customer id, every order item's order id and product id are generated order
  and product ids, and every shipment's order id is a generated order id; so the four
  assertions of the self-verification pass, and the run ends with the dataset.
\<close>

theorem foreign_keys_by_construction:
  assumes "generate_collections nc np no ni ns g = Inr (ds, g')"
  shows "(\<forall>r\<in>set (orders ds). o_customer_id r \<in> customer_id ` set (customers ds)) \<and>
         (\<forall>r\<in>set (order_items ds). oi_order_id r \<in> order_id ` set (orders ds) \<and>
                                    oi_product_id r \<in> product_id ` set (products ds)) \<and>
         (\<forall>s\<in>set (shipments ds). s_order_id s \<in> order_id ` set (orders ds)) \<and>
         verification ds = Inr () \<and>
         generate nc np no ni ns g = Inr ds"
proof -
  from generate_collections_steps [OF assms] obtain g1 g2 g3 g4 where
    os: "gen_orders no (customers ds) g2 = Inr (orders ds, g3)" and
    ois: "gen_order_items ni (orders ds) (products ds) g3 = Inr (order_items ds, g4)" and
    ss: "gen_shipments ns (orders ds) g4 = Inr (shipments ds, g')"
    by blast
  have a: "\<forall>r\<in>set (orders ds). o_customer_id r \<in> customer_id ` set (customers ds)"
    using gen_orders_customer [OF os] by simp
  have b: "\<forall>r\<in>set (order_items ds). oi_order_id r \<in> order_id ` set (orders ds) \<and>
                                    oi_product_id r \<in> product_id ` set (products ds)"
    using gen_order_items_refs [OF ois] by simp
  have c: "\<forall>s\<in>set (shipments ds). s_order_id s \<in> order_id ` set (orders ds)"
  proof
    fix s assume "s \<in> set (shipments ds)"
    from gen_shipments_order [OF ss this] order_ids_with_shipments_subset
    show "s_order_id s \<in> order_id ` set (orders ds)"
      by blast
  qed
  have v: "verification ds = Inr ()"
    using a b c unfolding verification_def by (simp add: image_subset_iff)
  have "generate nc np no ni ns g = Inr ds"
    unfolding generate_def using assms v by simp
  with a b c v show ?thesis by blast
qed

theorem foreign_keys_by_construction_witness:
  "generate_collections 2 1 3 2 2
     (sample_rng [0, 2, 4, 0, 0, 1, 2, 2, 0, 3, 6, 1, 0, 4, 2, 0, 0, 0, 1, 1, 0]
                 [10, 100, 5, 20, 1297, 30, 7, 3])
     = Inr (sample_dataset, sample_rng [] []) \<and>
   o_customer_id (orders sample_dataset ! 1) = 2 \<and>
   orders sample_dataset ! 1 \<in> set (orders sample_dataset) \<and>
   o_customer_id (orders sample_dataset ! 1) \<in> customer_id ` set (customers sample_dataset) \<and>
   verification sample_dataset = Inr () \<and>
   generate 2 1 3 2 2
     (sample_rng [0, 2, 4, 0, 0, 1, 2, 2, 0, 3, 6, 1, 0, 4, 2, 0, 0, 0, 1, 1, 0]
                 [10, 100, 5, 20, 1297, 30, 7, 3])
     = Inr sample_dataset"
proof -
  have m: "orders sample_dataset ! 1 \<in> set (orders sample_dataset)"
    by (simp add: sample_dataset_def sample_orders_def)
  have k: "o_customer_id (orders sample_dataset ! 1) = 2"
    by (simp add: sample_dataset_def sample_orders_def)
  from foreign_keys_by_construction [OF sample_generate_collections] m k
  show ?thesis using sample_generate_collections by blast
qed

subsection \<open>Shipment dates\<close>

text \<open>
  C1, as it stands, fails in the sample run: the second order is placed on 739553, two days
  before \<^verbatim>\<open>END_DATE\<close> (739555), and ships on 739556, after it; the shipment generated
  for that order is dated 739554, before the order's ship date.
\<close>

theorem shipment_before_ship_date_counterexample:
  "generate_collections 2 1 3 2 2
     (sample_rng [0, 2, 4, 0, 0, 1, 2, 2, 0, 3, 6, 1, 0, 4, 2, 0, 0, 0, 1, 1, 0]
                 [10, 100, 5, 20, 1297, 30, 7, 3])
     = Inr (sample_dataset, sample_rng [] []) \<and>
   shipments sample_dataset ! 0 \<in> set (shipments sample_dataset) \<and>
   orders sample_dataset ! 1 \<in> set (orders sample_dataset) \<and>
   order_id (orders sample_dataset ! 1) = s_order_id (shipments sample_dataset ! 0) \<and>
   ship_date (orders sample_dataset ! 1) = Some 739556 \<and>
   shipment_date (shipments sample_dataset ! 0) = 739554 \<and>
   \<not> 739556 \<le> shipment_date (shipments sample_dataset ! 0)"
  using sample_generate_collections
  by (simp add: sample_dataset_def sample_orders_def sample_shipments_def)

text \<open>
  C1, amended. For every generated shipment and the order it references: the shipment date
  is at least the order's ship date when that is set and not after \<^verbatim>\<open>END_DATE\<close>; when
  the ship date is unset, or set and after \<^verbatim>\<open>END_DATE\<close>, the shipment date is at least
  the order date; and the shipment date never exceeds \<^verbatim>\<open>END_DATE\<close> (2025-10-31).
\<close>

theorem shipment_date_bounds:
  assumes "gen_orders no cs g0 = Inr (os, g1)" and "gen_shipments ns os g = Inr (ss, g')"
    and "s \<in> set ss" and "r \<in> set os" and "order_id r = s_order_id s"
  shows "(case ship_date r of
            Some d \<Rightarrow> if d \<le> END_DATE then d \<le> shipment_date s
                      else order_date r \<le> shipment_date s
          | None \<Rightarrow> order_date r \<le> shipment_date s) \<and>
         shipment_date s \<le> END_DATE"
proof -
  from gen_shipments_dates [OF assms(2,3)] obtain r' where
    f: "find (\<lambda>r. order_id r = s_order_id s) os = Some r'" and
    d: "case ship_date r' of
          Some d \<Rightarrow> if d \<le> END_DATE then d \<le> shipment_date s
                    else order_date r' \<le> shipment_date s
        | None \<Rightarrow> order_date r' \<le> shipment_date s" and
    e: "order_date r' \<le> END_DATE \<longrightarrow> shipment_date s \<le> END_DATE"
    by blast
  have eq: "r = r'"
    using gen_orders_distinct [OF assms(1)] f assms(4,5) by (rule find_unique)
  from gen_orders_dates [OF assms(1,4)] have h: "order_date r \<le> END_DATE" by blast
  show ?thesis using d e h unfolding eq by blast
qed

theorem shipment_date_bounds_witness:
  "gen_orders 3 sample_customers
     (sample_rng [0, 0, 1, 2, 2, 0, 3, 6, 1, 0, 4, 2, 0, 0, 0, 1, 1, 0] [20, 1297, 30, 7, 3])
     = Inr (sample_orders, sample_rng [1, 0, 4, 2, 0, 0, 0, 1, 1, 0] [7, 3]) \<and>
   gen_shipments 2 sample_orders (sample_rng [0, 1, 1, 0] [7, 3])
     = Inr (sample_shipments, sample_rng [] []) \<and>
   sample_shipments ! 1 \<in> set sample_shipments \<and> sample_orders ! 2 \<in> set sample_orders \<and>
   order_id (sample_orders ! 2) = s_order_id (sample_shipments ! 1) \<and>
   ship_date (sample_orders ! 2) = Some 738203 \<and>
   (738203::int) \<le> shipment_date (sample_shipments ! 1) \<and>
   shipment_date (sample_shipments ! 1) \<le> END_DATE \<and>
   sample_shipments ! 0 \<in> set sample_shipments \<and> sample_orders ! 1 \<in> set sample_orders \<and>
   order_id (sample_orders ! 1) = s_order_id (sample_shipments ! 0) \<and>
   ship_date (sample_orders ! 1) = Some 739556 \<and>
   order_date (sample_orders ! 1) \<le> shipment_date (sample_shipments ! 0) \<and>
   shipment_date (sample_shipments ! 0) \<le> END_DATE"
proof -
  have ms: "sample_shipments ! 1 \<in> set sample_shipments"
    and mo: "sample_orders ! 2 \<in> set sample_orders"
    and k: "order_id (sample_orders ! 2) = s_order_id (sample_shipments ! 1)"
    and sd: "ship_date (sample_orders ! 2) = Some 738203"
    by (simp_all add: sample_shipments_def sample_orders_def)
  have ms': "sample_shipments ! 0 \<in> set sample_shipments"
    and mo': "sample_orders ! 1 \<in> set sample_orders"
    and k': "order_id (sample_orders ! 1) = s_order_id (sample_shipments ! 0)"
    and sd': "ship_date (sample_orders ! 1) = Some 739556"
    by (simp_all add: sample_shipments_def sample_orders_def)
  from shipment_date_bounds [OF sample_gen_orders sample_gen_shipments ms mo k] sd
  have a: "(738203::int) \<le> shipment_date (sample_shipments ! 1) \<and>
           shipment_date (sample_shipments ! 1) \<le> END_DATE"
    by (simp add: END_DATE_def)
  from shipment_date_bounds [OF sample_gen_orders sample_gen_shipments ms' mo' k'] sd'
  have b: "order_date (sample_orders ! 1) \<le> shipment_date (sample_shipments ! 0) \<and>
           shipment_date (sample_shipments ! 0) \<le> END_DATE"
    by (simp add: END_DATE_def)
  show ?thesis
    using sample_gen_orders sample_gen_shipments ms mo k sd a ms' mo' k' sd' b by blast
qed

subsection \<open>Shipments need a shipped or delivered order\<close>

lemma sample_pending_orders:
  "gen_orders 1 sample_customers (sample_rng [0, 0] [20])
   = Inr ([\<lparr>order_id = 1, o_customer_id = 1, order_date = 738186, ship_date = None,
             status = Pending\<rparr>], sample_rng [] [])"
  by (simp add: gen_orders_def order_row_def sample_customers_def sample_eval)

lemma shipment_row_key: "shipment_row os i g = Inr (s, g') \<Longrightarrow> shipment_id s = i"
  unfolding shipment_row_def Let_def by (auto split: sum.splits prod.splits)

lemma gen_shipments_keys:
  "gen_shipments n os g = Inr (ss, g') \<Longrightarrow> map shipment_id ss = [1..n]"
  unfolding gen_shipments_def
  by (drule rows_loop_keys [where key = shipment_id]) (auto dest: shipment_row_key)

text \<open>
  C10. With at least one shipment to generate, the shipment loop raises
  \<^verbatim>\<open>IndexError\<close> (and yields no shipment) when no generated order is Shipped or
  Delivered; when one is, it returns the shipments numbered 1 to the count, and every
  shipment it generates references an order, which is Shipped or Delivered.
\<close>

theorem shipments_need_shipped_order:
  assumes "gen_orders no cs g0 = Inr (os, g1)" and "1 \<le> ns"
  shows "(\<not> (\<exists>r\<in>set os. status r = Shipped \<or> status r = Delivered) \<longrightarrow>
            gen_shipments ns os g = Inl IndexError) \<and>
         ((\<exists>r\<in>set os. status r = Shipped \<or> status r = Delivered) \<longrightarrow>
            (\<exists>ss g'. gen_shipments ns os g = Inr (ss, g') \<and>
               map shipment_id ss = [1..ns] \<and>
               (\<forall>s\<in>set ss.
                  (\<exists>r\<in>set os. order_id r = s_order_id s \<and>
                               (status r = Shipped \<or> status r = Delivered)) \<and>
                  (\<forall>r\<in>set os. order_id r = s_order_id s \<longrightarrow>
                     status r = Shipped \<or> status r = Delivered))))"
proof (intro conjI impI)
  assume "\<not> (\<exists>r\<in>set os. status r = Shipped \<or> status r = Delivered)"
  then have "order_ids_with_shipments os = []"
    by (simp add: order_ids_with_shipments_empty)
  then have "shipment_row os 1 g = Inl IndexError" by (rule shipment_row_fails)
  with assms(2) show "gen_shipments ns os g = Inl IndexError"
    unfolding gen_shipments_def by (rule rows_loop_first_fails)
next
  assume "\<exists>r\<in>set os. status r = Shipped \<or> status r = Delivered"
  then have ne: "order_ids_with_shipments os \<noteq> []"
    by (simp add: order_ids_with_shipments_empty)
  have "\<exists>ss g'. rows_loop ns (shipment_row os) 1 [] g = Inr (ss, g')"
    by (rule rows_loop_total) (rule shipment_row_total [OF ne])
  then obtain ss g' where run: "gen_shipments ns os g = Inr (ss, g')"
    unfolding gen_shipments_def by blast
  have refs: "\<forall>s\<in>set ss.
                  (\<exists>r\<in>set os. order_id r = s_order_id s \<and>
                               (status r = Shipped \<or> status r = Delivered)) \<and>
                  (\<forall>r\<in>set os. order_id r = s_order_id s \<longrightarrow>
                     status r = Shipped \<or> status r = Delivered)"
  proof (intro ballI conjI impI)
    fix s assume s: "s \<in> set ss"
    from gen_shipments_order [OF run s]
    show "\<exists>r\<in>set os. order_id r = s_order_id s \<and> (status r = Shipped \<or> status r = Delivered)"
      by (simp add: order_ids_with_shipments_iff)
  next
    fix s r assume s: "s \<in> set ss" and r: "r \<in> set os" and k: "order_id r = s_order_id s"
    from gen_shipments_order [OF run s] obtain r' where
      r': "r' \<in> set os" "order_id r' = s_order_id s" "status r' = Shipped \<or> status r' = Delivered"
      by (auto simp: order_ids_with_shipments_iff)
    have "r = r'"
      using gen_orders_distinct [OF assms(1)] r r'(1) k r'(2) by (auto dest: same_key_same_row)
    with r'(3) show "status r = Shipped \<or> status r = Delivered" by simp
  qed
  from run refs gen_shipments_keys [OF run]
  show "\<exists>ss g'. gen_shipments ns os g = Inr (ss, g') \<and>
               map shipment_id ss = [1..ns] \<and>
               (\<forall>s\<in>set ss.
                  (\<exists>r\<in>set os. order_id r = s_order_id s \<and>
                               (status r = Shipped \<or> status r = Delivered)) \<and>
                  (\<forall>r\<in>set os. order_id r = s_order_id s \<longrightarrow>
                     status r = Shipped \<or> status r = Delivered))"
    by blast
qed

theorem shipments_need_shipped_order_witness:
  "gen_orders 1 sample_customers (sample_rng [0, 0] [20])
     = Inr ([\<lparr>order_id = 1, o_customer_id = 1, order_date = 738186, ship_date = None,
               status = Pending\<rparr>], sample_rng [] []) \<and>
   (1::int) \<le> 1 \<and>
   gen_shipments 1 [\<lparr>order_id = 1, o_customer_id = 1, order_date = 738186, ship_date = None,
                      status = Pending\<rparr>] (sample_rng [0, 1, 1, 0] [7, 3]) = Inl IndexError \<and>
   gen_orders 3 sample_customers
     (sample_rng [0, 0, 1, 2, 2, 0, 3, 6, 1, 0, 4, 2, 0, 0, 0, 1, 1, 0] [20, 1297, 30, 7, 3])
     = Inr (sample_orders, sample_rng [1, 0, 4, 2, 0, 0, 0, 1, 1, 0] [7, 3]) \<and>
   (1::int) \<le> 2 \<and>
   gen_shipments 2 sample_orders (sample_rng [0, 1, 1, 0] [7, 3])
     = Inr (sample_shipments, sample_rng [] []) \<and>
   map shipment_id sample_shipments = [1..2] \<and>
   sample_shipments ! 0 \<in> set sample_shipments \<and>
   s_order_id (sample_shipments ! 0) = 2 \<and>
   sample_orders ! 1 \<in> set sample_orders \<and>
   order_id (sample_orders ! 1) = s_order_id (sample_shipments ! 0) \<and>
   (status (sample_orders ! 1) = Shipped \<or> status (sample_orders ! 1) = Delivered) \<and>
   (\<exists>r\<in>set sample_orders. order_id r = s_order_id (sample_shipments ! 0) \<and>
                            (status r = Shipped \<or> status r = Delivered))"
proof -
  have one: "(1::int) \<le> 1" and two: "(1::int) \<le> 2" by simp_all
  have none: "\<not> (\<exists>r\<in>set [\<lparr>order_id = 1, o_customer_id = 1, order_date = 738186,
                   ship_date = None, status = Pending\<rparr>]. status r = Shipped \<or> status r = Delivered)"
    by simp
  have some: "\<exists>r\<in>set sample_orders. status r = Shipped \<or> status r = Delivered"
    by (simp add: sample_orders_def)
  have ms: "sample_shipments ! 0 \<in> set sample_shipments"
    and k0: "s_order_id (sample_shipments ! 0) = 2"
    and mo: "sample_orders ! 1 \<in> set sample_orders"
    and k: "order_id (sample_orders ! 1) = s_order_id (sample_shipments ! 0)"
    by (simp_all add: sample_shipments_def sample_orders_def)
  from shipments_need_shipped_order [OF sample_pending_orders one,
      of "sample_rng [0, 1, 1, 0] [7, 3]"] none
  have a: "gen_shipments 1 [\<lparr>order_id = 1, o_customer_id = 1, order_date = 738186,
             ship_date = None, status = Pending\<rparr>] (sample_rng [0, 1, 1, 0] [7, 3])
           = Inl IndexError"
    by blast
  from shipments_need_shipped_order [OF sample_gen_orders two,
      of "sample_rng [0, 1, 1, 0] [7, 3]"] some
  obtain ss g' where
    run: "gen_shipments 2 sample_orders (sample_rng [0, 1, 1, 0] [7, 3]) = Inr (ss, g')" and
    ids: "map shipment_id ss = [1..2]" and
    refs: "\<forall>s\<in>set ss.
             (\<exists>r\<in>set sample_orders. order_id r = s_order_id s \<and>
                (status r = Shipped \<or> status r = Delivered)) \<and>
             (\<forall>r\<in>set sample_orders. order_id r = s_order_id s \<longrightarrow>
                status r = Shipped \<or> status r = Delivered)"
    by blast
  from run sample_gen_shipments have eq: "ss = sample_shipments" by simp
  from refs ms have
    b: "\<exists>r\<in>set sample_orders. order_id r = s_order_id (sample_shipments ! 0) \<and>
                            (status r = Shipped \<or> status r = Delivered)" and
    c: "\<forall>r\<in>set sample_orders. order_id r = s_order_id (sample_shipments ! 0) \<longrightarrow>
                status r = Shipped \<or> status r = Delivered"
    unfolding eq by blast+
  from c mo k have d: "status (sample_orders ! 1) = Shipped \<or> status (sample_orders ! 1) = Delivered"
    by blast
  from ids have ids': "map shipment_id sample_shipments = [1..2]" unfolding eq .
  show ?thesis
    using sample_pending_orders one a sample_gen_orders two sample_gen_shipments ids' ms k0 mo k d b
    by blast
qed

section \<open>Properties of the loader\<close>

subsection \<open>Dropping duplicate keys\<close>








subsection \<open>Loading a file with repeated keys\<close>




text \<open>The insert of a frame that still holds a repeated key is rejected.\<close>

lemma to_sql_rejects_repeated_key:
  "\<not> distinct (map pk df) \<Longrightarrow>
   \<exists>e. to_sql max_variables ncols int_cells pk fk_ok table df = Inl e"
  by (auto simp: to_sql_def)




subsection \<open>Orphan counts and the verification result\<close>

lemma orphan_count_Cons:
  "orphan_count fk pk (c # child) parent =
     (if fk c \<in> pk ` set parent then 0 else 1) + orphan_count fk pk child parent"
proof (cases "filter (\<lambda>p. fk c = pk p) parent")
  case Nil
  then have "fk c \<notin> pk ` set parent" by (auto simp: filter_empty_conv)
  with Nil show ?thesis by (simp add: orphan_count_def left_join_def)
next
  case (Cons p ps)
  then have "p \<in> set (filter (\<lambda>p. fk c = pk p) parent)" by simp
  then have "fk c \<in> pk ` set parent" by auto
  with Cons show ?thesis
    by (simp add: orphan_count_def left_join_def filter_empty_conv split_def)
qed

lemma orphan_count_eq:
  "orphan_count fk pk child parent = length (filter (\<lambda>c. fk c \<notin> pk ` set parent) child)"
proof (induction child)
  case Nil
  show ?case by (simp add: orphan_count_def left_join_def)
next
  case (Cons c child)
  then show ?case by (simp add: orphan_count_Cons)
qed

lemma orphan_count_zero:
  "orphan_count fk pk child parent = 0 \<longleftrightarrow> fk ` set child \<subseteq> pk ` set parent"
  by (auto simp: orphan_count_eq filter_empty_conv)

text \<open>
  C6. The verification returns true exactly when each of the four orphan counts is zero,
  the orphan count of a relationship being the number of child rows whose foreign key is
  the key of no parent row.
\<close>

theorem verify_true_iff_no_orphans:
  "(verify_referential_integrity conn \<longleftrightarrow>
      orphan_count o_customer_id customer_id (t_orders conn) (t_customers conn) = 0 \<and>
      orphan_count oi_order_id order_id (t_order_items conn) (t_orders conn) = 0 \<and>
      orphan_count oi_product_id product_id (t_order_items conn) (t_products conn) = 0 \<and>
      orphan_count s_order_id order_id (t_shipments conn) (t_orders conn) = 0) \<and>
   orphan_count o_customer_id customer_id (t_orders conn) (t_customers conn) =
     length (filter (\<lambda>r. o_customer_id r \<notin> customer_id ` set (t_customers conn)) (t_orders conn)) \<and>
   orphan_count oi_order_id order_id (t_order_items conn) (t_orders conn) =
     length (filter (\<lambda>r. oi_order_id r \<notin> order_id ` set (t_orders conn)) (t_order_items conn)) \<and>
   orphan_count oi_product_id product_id (t_order_items conn) (t_products conn) =
     length (filter (\<lambda>r. oi_product_id r \<notin> product_id ` set (t_products conn))
               (t_order_items conn)) \<and>
   orphan_count s_order_id order_id (t_shipments conn) (t_orders conn) =
     length (filter (\<lambda>r. s_order_id r \<notin> order_id ` set (t_orders conn)) (t_shipments conn))"
proof -
  have "verify_referential_integrity conn \<longleftrightarrow>
      orphan_count o_customer_id customer_id (t_orders conn) (t_customers conn) = 0 \<and>
      orphan_count oi_order_id order_id (t_order_items conn) (t_orders conn) = 0 \<and>
      orphan_count oi_product_id product_id (t_order_items conn) (t_products conn) = 0 \<and>
      orphan_count s_order_id order_id (t_shipments conn) (t_orders conn) = 0"
    unfolding verify_referential_integrity_def integrity_checks_def Let_def by simp
  then show ?thesis by (simp only: orphan_count_eq simp_thms)
qed

theorem verify_true_iff_no_orphans_witness:
  "\<not> verify_referential_integrity sample_orphan_db \<and>
   orphan_count o_customer_id customer_id (t_orders sample_orphan_db)
     (t_customers sample_orphan_db) = 1 \<and>
   verify_referential_integrity
     \<lparr>t_customers = sample_customers, t_products = sample_products, t_orders = sample_orders,
      t_order_items = sample_order_items, t_shipments = sample_shipments\<rparr>"
proof -
  have a: "orphan_count o_customer_id customer_id (t_orders sample_orphan_db)
             (t_customers sample_orphan_db) = 1"
    using verify_true_iff_no_orphans [of sample_orphan_db]
    by (simp add: sample_orphan_db_def sample_orders_def sample_customers_def)
  then have b: "\<not> verify_referential_integrity sample_orphan_db"
    using verify_true_iff_no_orphans [of sample_orphan_db] by simp
  have c: "verify_referential_integrity
     \<lparr>t_customers = sample_customers, t_products = sample_products, t_orders = sample_orders,
      t_order_items = sample_order_items, t_shipments = sample_shipments\<rparr>"
    using verify_true_iff_no_orphans [of "\<lparr>t_customers = sample_customers,
      t_products = sample_products, t_orders = sample_orders,
      t_order_items = sample_order_items, t_shipments = sample_shipments\<rparr>"]
    by (simp add: sample_orders_def sample_customers_def sample_products_def
        sample_order_items_def sample_shipments_def)
  from a b c show ?thesis by blast
qed

subsection \<open>A missing file\<close>

lemma missing_files_iff:
  "f \<in> set (missing_files fs) \<longleftrightarrow> f \<in> set CSV_FILES \<and> \<not> path_exists fs f"
  by (simp add: missing_files_def)

lemma missing_files_names:
  "(customers_csv fs = None \<longleftrightarrow> ''customers.csv'' \<in> set (missing_files fs)) \<and>
   (products_csv fs = None \<longleftrightarrow> ''products.csv'' \<in> set (missing_files fs)) \<and>
   (orders_csv fs = None \<longleftrightarrow> ''orders.csv'' \<in> set (missing_files fs)) \<and>
   (order_items_csv fs = None \<longleftrightarrow> ''order_items.csv'' \<in> set (missing_files fs)) \<and>
   (shipments_csv fs = None \<longleftrightarrow> ''shipments.csv'' \<in> set (missing_files fs))"
  by (simp add: missing_files_iff CSV_FILES_def path_exists_def)

text \<open>
  C5. If any of the five files is missing, the run of the loader prints the names of the
  missing files and does nothing else: the database file is neither removed nor written,
  and no table is created, changed or loaded.
\<close>

theorem missing_file_aborts_before_any_write:
  assumes "customers_csv (files w) = None \<or> products_csv (files w) = None \<or>
           orders_csv (files w) = None \<or> order_items_csv (files w) = None \<or>
           shipments_csv (files w) = None"
  shows "main w = w\<lparr>console := console w @ [ErrorMissingCsvFiles (missing_files (files w))]\<rparr> \<and>
         db_file (main w) = db_file w \<and> files (main w) = files w \<and>
         (customers_csv (files w) = None \<longleftrightarrow> ''customers.csv'' \<in> set (missing_files (files w))) \<and>
         (products_csv (files w) = None \<longleftrightarrow> ''products.csv'' \<in> set (missing_files (files w))) \<and>
         (orders_csv (files w) = None \<longleftrightarrow> ''orders.csv'' \<in> set (missing_files (files w))) \<and>
         (order_items_csv (files w) = None \<longleftrightarrow>
            ''order_items.csv'' \<in> set (missing_files (files w))) \<and>
         (shipments_csv (files w) = None \<longleftrightarrow> ''shipments.csv'' \<in> set (missing_files (files w)))"
proof -
  note n = missing_files_names [of "files w"]
  from assms n have "\<exists>f. f \<in> set (missing_files (files w))" by metis
  then have "set (missing_files (files w)) \<noteq> {}" by (simp add: ex_in_conv)
  then have ne: "missing_files (files w) \<noteq> []" by simp
  then have m: "main w = w\<lparr>console := console w @ [ErrorMissingCsvFiles (missing_files (files w))]\<rparr>"
    by (simp add: main_def Let_def)
  have "db_file (main w) = db_file w" "files (main w) = files w"
    unfolding m by simp_all
  with m n show ?thesis by blast
qed

theorem missing_file_aborts_before_any_write_witness:
  "shipments_csv (files sample_world) = None \<and>
   main sample_world = sample_world\<lparr>console := [ErrorMissingCsvFiles [''shipments.csv'']]\<rparr> \<and>
   db_file (main sample_world) = Some sample_orphan_db"
proof -
  have h: "shipments_csv (files sample_world) = None" by (simp add: sample_world_def)
  then have h': "customers_csv (files sample_world) = None \<or>
           products_csv (files sample_world) = None \<or>
           orders_csv (files sample_world) = None \<or> order_items_csv (files sample_world) = None \<or>
           shipments_csv (files sample_world) = None"
    by blast
  have ms: "missing_files (files sample_world) = [''shipments.csv'']"
    by (simp add: missing_files_def CSV_FILES_def path_exists_def sample_world_def)
  have c: "console sample_world = []" "db_file sample_world = Some sample_orphan_db"
    by (simp_all add: sample_world_def)
  from missing_file_aborts_before_any_write [OF h'] h ms c
  show ?thesis by simp
qed

text \<open>With the five files present the run does write: it replaces the database file.\<close>

lemma main_loads_when_all_present:
  "main (sample_world\<lparr>files := (files sample_world)\<lparr>shipments_csv := Some sample_shipments\<rparr>\<rparr>)
   = sample_world
       \<lparr>files := (files sample_world)\<lparr>shipments_csv := Some sample_shipments\<rparr>,
        db_file := Some \<lparr>t_customers = sample_customers, t_products = sample_products,
                         t_orders = sample_orders, t_order_items = sample_order_items,
                         t_shipments = sample_shipments\<rparr>,
        console := [RemovingExistingDatabase, Connected, SchemaCreated,
          Loading ''customers.csv'' ''customers'', LoadedRows 2 ''customers'',
          Loading ''products.csv'' ''products'', LoadedRows 1 ''products'',
          Loading ''orders.csv'' ''orders'', LoadedRows 3 ''orders'',
          Loading ''order_items.csv'' ''order_items'', LoadedRows 2 ''order_items'',
          Loading ''shipments.csv'' ''shipments'', LoadedRows 2 ''shipments'',
          IndexesCreated, RowCounts [2, 1, 3, 2, 2],
          IntegrityChecks [(''Orders -> Customers'', True, 0),
            (''Order Items -> Orders'', True, 0), (''Order Items -> Products'', True, 0),
            (''Shipments -> Orders'', True, 0)],
          CompletedSuccessfully]\<rparr>"
  by (simp add: main_def Let_def missing_files_def CSV_FILES_def path_exists_def sample_world_def
      load_all_def load_csv_to_table_def to_sql_def sqlite_integer_def drop_duplicates_def
      duplicates_removed_def
      create_database_schema_def print_table_counts_def verify_referential_integrity_def
      integrity_checks_def orphan_count_eq sample_customers_def sample_products_def
      sample_orders_def sample_order_items_def sample_shipments_def)

end
